theory Spec2Isabelle
  imports Main "HOL-Library.Word"
begin

unbundle bit_operations_syntax

section \<open>Bytes and big-endian encoding\<close>

text \<open>
  A Go \<^verbatim>\<open>[]byte\<close> is a list of 8-bit words. A nil slice and an empty slice are
  both the empty list: \<^verbatim>\<open>bytes.Equal\<close>, \<^verbatim>\<open>len\<close> and \<^verbatim>\<open>append\<close> do not tell them apart.
\<close>

type_synonym byte = "8 word"
type_synonym bytes = "byte list"
type_synonym u32 = "32 word"
type_synonym u64 = "64 word"

text \<open>\<^verbatim>\<open>binary.BigEndian.PutUint32\<close> and \<^verbatim>\<open>PutUint64\<close>: most significant byte first.\<close>

definition PutUint32 :: "u32 \<Rightarrow> bytes" where
  "PutUint32 v = [ucast (drop_bit 24 v), ucast (drop_bit 16 v), ucast (drop_bit 8 v), ucast v]"

definition PutUint64 :: "u64 \<Rightarrow> bytes" where
  "PutUint64 v =
     [ucast (drop_bit 56 v), ucast (drop_bit 48 v), ucast (drop_bit 40 v), ucast (drop_bit 32 v),
      ucast (drop_bit 24 v), ucast (drop_bit 16 v), ucast (drop_bit 8 v), ucast v]"

section \<open>The hasher: SHA-256\<close>

text \<open>
  \<^verbatim>\<open>SHA256Hasher.Hash\<close> (pkg/hasher/hasher.go) calls \<^verbatim>\<open>sha256.Sum256\<close> of the Go
  standard library and returns the 32 bytes of the digest. The digest is written out here
  after FIPS 180-4: padding to a multiple of 64 bytes, sixteen 32-bit words per block, a
  64-word message schedule and 64 rounds of compression. The round constants and the
  initial state are the standard's, in decimal.
\<close>

definition sha_K :: "u32 list" where
  "sha_K =
    [1116352408, 1899447441, 3049323471, 3921009573, 961987163, 1508970993,
     2453635748, 2870763221, 3624381080, 310598401, 607225278, 1426881987,
     1925078388, 2162078206, 2614888103, 3248222580, 3835390401, 4022224774,
     264347078, 604807628, 770255983, 1249150122, 1555081692, 1996064986,
     2554220882, 2821834349, 2952996808, 3210313671, 3336571891, 3584528711,
     113926993, 338241895, 666307205, 773529912, 1294757372, 1396182291,
     1695183700, 1986661051, 2177026350, 2456956037, 2730485921, 2820302411,
     3259730800, 3345764771, 3516065817, 3600352804, 4094571909, 275423344,
     430227734, 506948616, 659060556, 883997877, 958139571, 1322822218,
     1537002063, 1747873779, 1955562222, 2024104815, 2227730452, 2361852424,
     2428436474, 2756734187, 3204031479, 3329325298]"

type_synonym sha_state = "u32 \<times> u32 \<times> u32 \<times> u32 \<times> u32 \<times> u32 \<times> u32 \<times> u32"

definition sha_init :: sha_state where
  "sha_init = (1779033703, 3144134277, 1013904242, 2773480762, 1359893119, 2600822924, 528734635, 1541459225)"

definition sha_pad :: "bytes \<Rightarrow> bytes" where
  "sha_pad m = m @ [128] @ replicate ((119 - length m mod 64) mod 64) 0
                 @ PutUint64 (word_of_nat (8 * length m))"

fun sha_words :: "bytes \<Rightarrow> u32 list" where
  "sha_words (b3 # b2 # b1 # b0 # rest) =
     (push_bit 24 (ucast b3) OR push_bit 16 (ucast b2) OR push_bit 8 (ucast b1) OR ucast b0)
       # sha_words rest"
| "sha_words _ = []"

text \<open>
  The message schedule, kept newest word first: with \<open>t\<close> words computed, word \<open>t - j\<close>
  is at index \<open>j - 1\<close>.
\<close>

fun sha_schedule :: "nat \<Rightarrow> u32 list \<Rightarrow> u32 list" where
  "sha_schedule 0 rw = rw"
| "sha_schedule (Suc n) rw =
     (let w2 = rw ! 1; w7 = rw ! 6; w15 = rw ! 14; w16 = rw ! 15;
          s0 = word_rotr 7 w15 XOR word_rotr 18 w15 XOR drop_bit 3 w15;
          s1 = word_rotr 17 w2 XOR word_rotr 19 w2 XOR drop_bit 10 w2
      in sha_schedule n ((w16 + s0 + w7 + s1) # rw))"

fun sha_round :: "sha_state \<Rightarrow> u32 \<times> u32 \<Rightarrow> sha_state" where
  "sha_round (a, b, c, d, e, f, g, h) (k, w) =
     (let S1 = word_rotr 6 e XOR word_rotr 11 e XOR word_rotr 25 e;
          ch = (e AND f) XOR (NOT e AND g);
          t1 = h + S1 + ch + k + w;
          S0 = word_rotr 2 a XOR word_rotr 13 a XOR word_rotr 22 a;
          maj = (a AND b) XOR (a AND c) XOR (b AND c);
          t2 = S0 + maj
      in (t1 + t2, a, b, c, d + t1, e, f, g))"

fun sha_add :: "sha_state \<Rightarrow> sha_state \<Rightarrow> sha_state" where
  "sha_add (a, b, c, d, e, f, g, h) (a', b', c', d', e', f', g', h') =
     (a + a', b + b', c + c', d + d', e + e', f + f', g + g', h + h')"

definition sha_block :: "sha_state \<Rightarrow> u32 list \<Rightarrow> sha_state" where
  "sha_block st ws =
     sha_add st (foldl sha_round st (zip sha_K (rev (sha_schedule 48 (rev ws)))))"

function sha_blocks :: "sha_state \<Rightarrow> u32 list \<Rightarrow> sha_state" where
  "sha_blocks st ws =
     (if length ws < 16 then st else sha_blocks (sha_block st (take 16 ws)) (drop 16 ws))"
  by pat_completeness auto
termination
  by (relation "measure (\<lambda>(st, ws). length ws)") auto

declare sha_blocks.simps [simp del]

fun sha_out :: "sha_state \<Rightarrow> bytes" where
  "sha_out (a, b, c, d, e, f, g, h) =
     PutUint32 a @ PutUint32 b @ PutUint32 c @ PutUint32 d
       @ PutUint32 e @ PutUint32 f @ PutUint32 g @ PutUint32 h"

definition SHA256 :: "bytes \<Rightarrow> bytes" where
  "SHA256 m = sha_out (sha_blocks sha_init (sha_words (sha_pad m)))"

text \<open>\<^verbatim>\<open>func (h *SHA256Hasher) Hash(data []byte) []byte\<close>\<close>

definition Hash :: "bytes \<Rightarrow> bytes" where
  "Hash data' = SHA256 data'"

section \<open>Decimal rendering\<close>

text \<open>
  What \<^verbatim>\<open>fmt\<close> prints for an integer under \<^verbatim>\<open>%d\<close> and \<^verbatim>\<open>%v\<close>: the decimal digits, most
  significant first, after a minus sign when the value is negative.
\<close>

function decimal :: "nat \<Rightarrow> bytes" where
  "decimal n = (if n < 10 then [48 + of_nat n] else decimal (n div 10) @ [48 + of_nat (n mod 10)])"
  by pat_completeness auto
termination
  by (relation "measure id") auto

definition sprintInt :: "int \<Rightarrow> bytes" where
  "sprintInt i = (if i < 0 then 45 # decimal (nat (- i)) else decimal (nat i))"

section \<open>The canonical serializer (internal/tree/serializer.go)\<close>

text \<open>
  A Go value of type \<^verbatim>\<open>any\<close>, by the cases of the type switch in \<^verbatim>\<open>serializeValue\<close>.
  A string is its bytes (\<^verbatim>\<open>[]byte(val)\<close>); \<^verbatim>\<open>int\<close> is 64 bits wide, as on the 64-bit
  targets the repository builds for. A \<^verbatim>\<open>float64\<close> is its IEEE-754 bit pattern
  (\<^verbatim>\<open>math.Float64bits\<close>), a \<^verbatim>\<open>float32\<close> is the bit pattern of its widening
  \<^verbatim>\<open>float64(val)\<close>, a \<^verbatim>\<open>time.Time\<close> is its \<^verbatim>\<open>UnixNano()\<close>, and a value of any other
  type is the bytes of its rendering by \<^verbatim>\<open>fmt.Sprintf("%v", val)\<close>: the serializer reads
  nothing else of these values. The integer types the type switch does not name
  (\<^verbatim>\<open>int8\<close>, \<^verbatim>\<open>int16\<close> and the unsigned ones) are values of their own, with their width.
\<close>

datatype GoValue =
    VNil
  | VString bytes
  | VInt u64
  | VInt64 u64
  | VInt32 u32
  | VFloat64 u64
  | VFloat32 u64
  | VBool bool
  | VBytes bytes
  | VTime u64
  | VInt8 byte
  | VInt16 "16 word"
  | VUint u64
  | VUint8 byte
  | VUint16 "16 word"
  | VUint32 u32
  | VUint64 u64
  | VOther bytes

record Serializer =
  buf :: bytes

definition NewSerializer :: Serializer where
  "NewSerializer = \<lparr>buf = []\<rparr>"

definition writeType :: "Serializer \<Rightarrow> byte \<Rightarrow> Serializer" where
  "writeType s t = s\<lparr>buf := buf s @ [t]\<rparr>"

text \<open>The length prefix is \<^verbatim>\<open>uint32(len(b))\<close>: the length modulo \<open>2 ^ 32\<close>.\<close>

definition writeBytes :: "Serializer \<Rightarrow> bytes \<Rightarrow> Serializer" where
  "writeBytes s b =
     (let lenBuf = PutUint32 (word_of_nat (length b));
          s1 = s\<lparr>buf := buf s @ lenBuf\<rparr>
      in s1\<lparr>buf := buf s1 @ b\<rparr>)"

definition writeInt64 :: "Serializer \<Rightarrow> u64 \<Rightarrow> Serializer" where
  "writeInt64 s i = s\<lparr>buf := buf s @ PutUint64 i\<rparr>"

definition writeFloat64 :: "Serializer \<Rightarrow> u64 \<Rightarrow> Serializer" where
  "writeFloat64 s fbits = s\<lparr>buf := buf s @ PutUint64 fbits\<rparr>"

text \<open>
  \<^verbatim>\<open>int64(val)\<close> of an \<^verbatim>\<open>int32\<close> sign-extends: \<open>scast\<close>. The switch has a case for
  \<^verbatim>\<open>int\<close>, \<^verbatim>\<open>int64\<close> and \<^verbatim>\<open>int32\<close> only; every other integer type falls to \<^verbatim>\<open>default\<close>,
  which writes tag 1 and the length-prefixed rendering.
\<close>

fun serializeValue :: "Serializer \<Rightarrow> GoValue \<Rightarrow> Serializer" where
  "serializeValue s VNil = writeType s 0"
| "serializeValue s (VString val) = writeBytes (writeType s 1) val"
| "serializeValue s (VInt val) = writeInt64 (writeType s 2) val"
| "serializeValue s (VInt64 val) = writeInt64 (writeType s 2) val"
| "serializeValue s (VInt32 val) = writeInt64 (writeType s 2) (scast val)"
| "serializeValue s (VFloat64 val) = writeFloat64 (writeType s 3) val"
| "serializeValue s (VFloat32 val) = writeFloat64 (writeType s 3) val"
| "serializeValue s (VBool val) =
     (let s1 = writeType s 4
      in if val then s1\<lparr>buf := buf s1 @ [1]\<rparr> else s1\<lparr>buf := buf s1 @ [0]\<rparr>)"
| "serializeValue s (VBytes val) = writeBytes (writeType s 5) val"
| "serializeValue s (VTime val) = writeInt64 (writeType s 6) val"
| "serializeValue s (VInt8 val) = writeBytes (writeType s 1) (sprintInt (sint val))"
| "serializeValue s (VInt16 val) = writeBytes (writeType s 1) (sprintInt (sint val))"
| "serializeValue s (VUint val) = writeBytes (writeType s 1) (decimal (unat val))"
| "serializeValue s (VUint8 val) = writeBytes (writeType s 1) (decimal (unat val))"
| "serializeValue s (VUint16 val) = writeBytes (writeType s 1) (decimal (unat val))"
| "serializeValue s (VUint32 val) = writeBytes (writeType s 1) (decimal (unat val))"
| "serializeValue s (VUint64 val) = writeBytes (writeType s 1) (decimal (unat val))"
| "serializeValue s (VOther rendering) = writeBytes (writeType s 1) rendering"

text \<open>
  \<^verbatim>\<open>SerializeRow\<close> resets the buffer, writes every value in order and returns a copy
  of the buffer; the serializer keeps the bytes it wrote until the next call.
\<close>

definition SerializeRow :: "Serializer \<Rightarrow> GoValue list \<Rightarrow> bytes \<times> Serializer" where
  "SerializeRow s vals =
     (let s1 = s\<lparr>buf := []\<rparr>;
          s2 = foldl serializeValue s1 vals;
          result = buf s2
      in (result, s2))"

section \<open>Tree nodes (pkg/tree/node.go)\<close>

text \<open>
  A \<^verbatim>\<open>*MerkleNode\<close> is \<open>None\<close> when nil. The builder never shares a node between two
  parents, so the pointer structure it makes is a tree of values. \<^verbatim>\<open>level\<close> is a Go
  \<^verbatim>\<open>int\<close>; it counts pairing rounds and stays far below \<open>2 ^ 63\<close>.
\<close>

datatype MerkleNode =
  MerkleNode (GetHash: bytes) (GetStartKey: bytes) (GetEndKey: bytes)
             (GetLeft: "MerkleNode option") (GetRight: "MerkleNode option") (GetLevel: int)

definition NewNode :: "bytes \<Rightarrow> bytes \<Rightarrow> bytes \<Rightarrow> MerkleNode" where
  "NewNode hash startKey endKey =
     (let hashed = Hash hash in MerkleNode hashed startKey endKey None None 0)"

fun SetLeft :: "MerkleNode \<Rightarrow> MerkleNode option \<Rightarrow> MerkleNode" where
  "SetLeft (MerkleNode h sk ek l r lv) left' = MerkleNode h sk ek left' r lv"

fun SetRight :: "MerkleNode \<Rightarrow> MerkleNode option \<Rightarrow> MerkleNode" where
  "SetRight (MerkleNode h sk ek l r lv) right' = MerkleNode h sk ek l right' lv"

fun SetLevel :: "MerkleNode \<Rightarrow> int \<Rightarrow> MerkleNode" where
  "SetLevel (MerkleNode h sk ek l r lv) level' = MerkleNode h sk ek l r level'"

definition IsLeaf :: "MerkleNode \<Rightarrow> bool" where
  "IsLeaf n \<longleftrightarrow> GetLeft n = None \<and> GetRight n = None"

definition IsInternal :: "MerkleNode \<Rightarrow> bool" where
  "IsInternal n \<longleftrightarrow> GetLeft n \<noteq> None \<and> GetRight n \<noteq> None"

text \<open>\<^verbatim>\<open>func (n *MerkleNode) GetChunkSize() int { return len(n.startKey) }\<close>\<close>

definition NodeChunkSize :: "MerkleNode \<Rightarrow> int" where
  "NodeChunkSize n = int (length (GetStartKey n))"

section \<open>The tree and its builders (pkg/tree/tree.go)\<close>

record Row =
  Key :: bytes
  Values :: "GoValue list"

record NodeBuilder =
  Serializer :: Serializer

definition NewNodeBuilder :: NodeBuilder where
  "NewNodeBuilder = \<lparr>Serializer = NewSerializer\<rparr>"

definition SerializeRowValues :: "NodeBuilder \<Rightarrow> GoValue list \<Rightarrow> bytes \<times> NodeBuilder" where
  "SerializeRowValues b vals =
     (case SerializeRow (Serializer b) vals of (out, s') \<Rightarrow> (out, b\<lparr>Serializer := s'\<rparr>))"

record MerkleTree =
  root :: "MerkleNode option"
  nodeBuilder :: NodeBuilder

text \<open>
  What a call can end in besides returning: the runtime panics of a nil dereference and of
  an index out of range, and the \<^verbatim>\<open>panic(fmt.Errorf("chunk size mismatch: %d vs %d", ...))\<close>
  of \<^verbatim>\<open>Compare\<close>, with the two sizes it prints.
\<close>

datatype panic = NilDereference | IndexOutOfRange | ChunkSizeMismatch int int

text \<open>
  One pass of the inner loop of \<^verbatim>\<open>buildTreeLevels\<close>: left to right in steps of two, a
  parent for each full pair, the last node of an odd count appended as it is.
\<close>

fun nextLevel :: "MerkleNode list \<Rightarrow> MerkleNode list" where
  "nextLevel (left' # right' # rest) =
     (let combined = GetHash left' @ GetHash right';
          parent = NewNode combined (GetStartKey left') (GetEndKey right');
          parent = SetLeft parent (Some left');
          parent = SetRight parent (Some right');
          level = GetLevel left';
          level = (if GetLevel right' > level then GetLevel right' else level);
          parent = SetLevel parent (level + 1)
      in parent # nextLevel rest)"
| "nextLevel [n] = [n]"
| "nextLevel [] = []"

lemma length_nextLevel: "length (nextLevel nodes) = (length nodes + 1) div 2"
  by (induction nodes rule: nextLevel.induct) (simp_all add: Let_def)

text \<open>
  The outer loop runs while more than one node is left and then returns \<^verbatim>\<open>nodes[0]\<close>,
  which panics on an empty slice.
\<close>

function buildTreeLevels :: "MerkleNode list \<Rightarrow> panic + MerkleNode" where
  "buildTreeLevels nodes =
     (if length nodes > 1 then buildTreeLevels (nextLevel nodes)
      else (case nodes of [] \<Rightarrow> Inl IndexOutOfRange | n # _ \<Rightarrow> Inr n))"
  by pat_completeness auto
termination
  by (relation "measure length") (auto simp: length_nextLevel)

declare buildTreeLevels.simps [simp del]

lemma buildTreeLevels_Nil [simp]: "buildTreeLevels [] = Inl IndexOutOfRange"
  by (subst buildTreeLevels.simps) simp

lemma buildTreeLevels_one [simp]: "buildTreeLevels [n] = Inr n"
  by (subst buildTreeLevels.simps) simp

lemma buildTreeLevels_more [simp]:
  "buildTreeLevels (a # b # rest) = buildTreeLevels (nextLevel (a # b # rest))"
  by (subst buildTreeLevels.simps) simp

text \<open>The leaf loop of \<^verbatim>\<open>buildTreeFromRows\<close>; every row goes through the same serializer.\<close>

fun rowLeaves :: "NodeBuilder \<Rightarrow> Row list \<Rightarrow> MerkleNode list \<times> NodeBuilder" where
  "rowLeaves nb [] = ([], nb)"
| "rowLeaves nb (row # rows) =
     (case SerializeRowValues nb (Values row) of (serializedValue, nb1) \<Rightarrow>
        (let node = SetLevel (NewNode serializedValue (Key row) (Key row)) 0
         in case rowLeaves nb1 rows of (rest, nb2) \<Rightarrow> (node # rest, nb2)))"

definition buildTreeFromRows ::
  "Row list \<Rightarrow> NodeBuilder \<Rightarrow> (panic + MerkleNode option) \<times> NodeBuilder" where
  "buildTreeFromRows rows nb =
     (if length rows = 0 then (Inr None, nb)
      else case rowLeaves nb rows of (nodes, nb') \<Rightarrow>
        (case buildTreeLevels nodes of Inl p \<Rightarrow> (Inl p, nb') | Inr n \<Rightarrow> (Inr (Some n), nb')))"

definition NewMerkleTreeFromRows :: "Row list \<Rightarrow> panic + MerkleTree" where
  "NewMerkleTreeFromRows rows =
     (case buildTreeFromRows rows NewNodeBuilder of
        (Inl p, nb) \<Rightarrow> Inl p
      | (Inr r, nb) \<Rightarrow> Inr \<lparr>root = r, nodeBuilder = nb\<rparr>)"

text \<open>\<^verbatim>\<open>fmt.Sprintf("chunk-%d", i)\<close> for an index \<open>i \<ge> 0\<close>: the decimal digits of \<open>i\<close>.\<close>

definition chunkKey :: "nat \<Rightarrow> bytes" where
  "chunkKey i = [99, 104, 117, 110, 107, 45] @ decimal i"

fun chunkLeaves :: "nat \<Rightarrow> bytes list \<Rightarrow> MerkleNode list" where
  "chunkLeaves i [] = []"
| "chunkLeaves i (chunk # chunks) =
     (let key = chunkKey i; node = SetLevel (NewNode chunk key key) 0
      in node # chunkLeaves (Suc i) chunks)"

definition buildTreeFromChunks :: "bytes list \<Rightarrow> panic + MerkleNode option" where
  "buildTreeFromChunks chunks =
     (if length chunks = 0 then Inr None
      else case buildTreeLevels (chunkLeaves 0 chunks) of
             Inl p \<Rightarrow> Inl p | Inr n \<Rightarrow> Inr (Some n))"

definition NewMerkleTreeFromChunks :: "bytes list \<Rightarrow> panic + MerkleTree" where
  "NewMerkleTreeFromChunks chunks =
     (case buildTreeFromChunks chunks of
        Inl p \<Rightarrow> Inl p
      | Inr r \<Rightarrow> Inr \<lparr>root = r, nodeBuilder = NewNodeBuilder\<rparr>)"

definition GetRoot :: "MerkleTree \<Rightarrow> MerkleNode option" where
  "GetRoot t = root t"

text \<open>\<^verbatim>\<open>MerkleTree.GetChunkSize\<close>: 0 for a nil root, else the length of the root's start key.\<close>

definition GetChunkSize :: "MerkleTree \<Rightarrow> int" where
  "GetChunkSize t = (case root t of None \<Rightarrow> 0 | Some n \<Rightarrow> NodeChunkSize n)"

section \<open>Building from a row reader\<close>

text \<open>
  \<^verbatim>\<open>types.RowReader\<close> is an interface: any implementation, over any state \<open>'s\<close>, with
  errors of any type \<open>'e\<close>. Each method may change the reader, so each returns the state
  it leaves. \<^verbatim>\<open>Schema\<close>, \<^verbatim>\<open>IsSorted\<close> and \<^verbatim>\<open>Close\<close> are not called by the builder.
\<close>

record ('s, 'e) RowReader =
  Next :: "'s \<Rightarrow> bool \<times> 's"
  Row :: "'s \<Rightarrow> Row \<times> 's"
  Err :: "'s \<Rightarrow> 'e option \<times> 's"

text \<open>
  The loop \<^verbatim>\<open>for r.Next() { ... nodes = append(nodes, node) }\<close>. Nothing bounds the
  number of rows a reader yields: the loop is partial, \<open>None\<close> when it never ends.
\<close>

partial_function (option) readLeaves ::
  "('s, 'e) RowReader \<Rightarrow> 's \<Rightarrow> NodeBuilder \<Rightarrow> MerkleNode list
     \<Rightarrow> ('s \<times> NodeBuilder \<times> MerkleNode list) option" where
  "readLeaves r s nb nodes =
     (case Next r s of (ok, s1) \<Rightarrow>
        if ok then
          (case Row r s1 of (row, s2) \<Rightarrow>
             (case SerializeRowValues nb (Values row) of (serializedValue, nb1) \<Rightarrow>
                (let node = SetLevel (NewNode serializedValue (Key row) (Key row)) 0
                 in readLeaves r s2 nb1 (nodes @ [node]))))
        else Some (s1, nb, nodes))"

text \<open>
  The result is Go's pair \<^verbatim>\<open>(*MerkleTree, error)\<close>, or a panic, together with the state
  the reader is left in.
\<close>

definition BuildTreeFromReader ::
  "('s, 'e) RowReader \<Rightarrow> 's \<Rightarrow> ((panic + MerkleTree option \<times> 'e option) \<times> 's) option" where
  "BuildTreeFromReader r s =
     (case readLeaves r s NewNodeBuilder [] of
        None \<Rightarrow> None
      | Some (s1, nb, nodes) \<Rightarrow>
          (case Err r s1 of
             (Some err, s2) \<Rightarrow> Some (Inr (None, Some err), s2)
           | (None, s2) \<Rightarrow>
               if length nodes = 0
               then Some (Inr (Some \<lparr>root = None, nodeBuilder = nb\<rparr>, None), s2)
               else (case buildTreeLevels nodes of
                       Inl p \<Rightarrow> Some (Inl p, s2)
                     | Inr n \<Rightarrow>
                         Some (Inr (Some \<lparr>root = Some n, nodeBuilder = nb\<rparr>, None), s2))))"

section \<open>The diff engine (pkg/tree/diff.go)\<close>

datatype DiffType = DiffTypeAdded | DiffTypeRemoved | DiffTypeChanged

record KeyRange =
  Start :: bytes
  End :: bytes
  Type :: DiffType

record Diff =
  treeA :: "MerkleTree option"
  treeB :: "MerkleTree option"
  ranges :: "KeyRange list"

definition NewDiff :: "MerkleTree option \<Rightarrow> MerkleTree option \<Rightarrow> Diff" where
  "NewDiff a b = \<lparr>treeA = a, treeB = b, ranges = []\<rparr>"

text \<open>\<^verbatim>\<open>bytes.Compare\<close>: lexicographic on unsigned bytes; -1, 0 or 1.\<close>

fun bytesCompare :: "bytes \<Rightarrow> bytes \<Rightarrow> int" where
  "bytesCompare [] [] = 0"
| "bytesCompare [] (y # ys) = - 1"
| "bytesCompare (x # xs) [] = 1"
| "bytesCompare (x # xs) (y # ys) =
     (if x < y then - 1 else if y < x then 1 else bytesCompare xs ys)"

definition minKey :: "bytes \<Rightarrow> bytes \<Rightarrow> bytes" where
  "minKey a b = (if bytesCompare a b < 0 then a else b)"

definition maxKey :: "bytes \<Rightarrow> bytes \<Rightarrow> bytes" where
  "maxKey a b = (if bytesCompare a b > 0 then a else b)"

lemma size_GetLeft: "size_option size (GetLeft n) < size n"
  by (cases n) simp

lemma size_GetRight: "size_option size (GetRight n) < size n"
  by (cases n) simp

text \<open>
  \<^verbatim>\<open>differences\<close> is the slice behind the pointer the Go function appends to; the
  function returns it.
\<close>

function compareTreesRecursive ::
  "MerkleNode option \<Rightarrow> MerkleNode option \<Rightarrow> KeyRange list \<Rightarrow> KeyRange list" where
  "compareTreesRecursive None None differences = differences"
| "compareTreesRecursive None (Some b) differences =
     differences @ [\<lparr>Start = GetStartKey b, End = GetEndKey b, Type = DiffTypeAdded\<rparr>]"
| "compareTreesRecursive (Some a) None differences =
     differences @ [\<lparr>Start = GetStartKey a, End = GetEndKey a, Type = DiffTypeRemoved\<rparr>]"
| "compareTreesRecursive (Some a) (Some b) differences =
     (if GetHash a = GetHash b then differences
      else if IsLeaf a \<and> IsLeaf b then
        differences @ [\<lparr>Start = GetStartKey a, End = GetEndKey a, Type = DiffTypeChanged\<rparr>]
      else if IsLeaf a \<noteq> IsLeaf b then
        differences @ [\<lparr>Start = minKey (GetStartKey a) (GetStartKey b),
                         End = maxKey (GetEndKey a) (GetEndKey b),
                         Type = DiffTypeChanged\<rparr>]
      else compareTreesRecursive (GetRight a) (GetRight b)
             (compareTreesRecursive (GetLeft a) (GetLeft b) differences))"
  by pat_completeness auto
termination
  by (relation "measure (\<lambda>(a, b, ds). size_option size a)")
     (auto simp: size_GetLeft size_GetRight less_Suc_eq)

text \<open>
  \<^verbatim>\<open>Compare\<close> panics before it writes \<^verbatim>\<open>d.ranges\<close> when a tree pointer is nil or the
  chunk sizes differ; the result is the panic, if any, and the \<^verbatim>\<open>Diff\<close> as it is left.
\<close>

definition Compare :: "Diff \<Rightarrow> panic option \<times> Diff" where
  "Compare d =
     (case treeA d of
        None \<Rightarrow> (Some NilDereference, d)
      | Some a \<Rightarrow>
          (case treeB d of
             None \<Rightarrow> (Some NilDereference, d)
           | Some b \<Rightarrow>
               if GetChunkSize a \<noteq> GetChunkSize b
               then (Some (ChunkSizeMismatch (GetChunkSize a) (GetChunkSize b)), d)
               else (let differences = compareTreesRecursive (GetRoot a) (GetRoot b) []
                     in (None, d\<lparr>ranges := differences\<rparr>))))"

definition GetRanges :: "Diff \<Rightarrow> KeyRange list" where
  "GetRanges d = ranges d"

section \<open>The callers' sequence: build two trees, compare, read the ranges\<close>

text \<open>
  \<^verbatim>\<open>runDiff\<close> of the command line and the tests of the diff engine all run
  \<^verbatim>\<open>treeA := New...(a); treeB := New...(b); diff := NewDiff(treeA, treeB); diff.Compare();
  diff.GetRanges()\<close>. A panic on the way ends the sequence.
\<close>

definition compareRows :: "Row list \<Rightarrow> Row list \<Rightarrow> panic + KeyRange list" where
  "compareRows rowsA rowsB =
     (case NewMerkleTreeFromRows rowsA of
        Inl p \<Rightarrow> Inl p
      | Inr a \<Rightarrow>
          (case NewMerkleTreeFromRows rowsB of
             Inl p \<Rightarrow> Inl p
           | Inr b \<Rightarrow>
               (case Compare (NewDiff (Some a) (Some b)) of
                  (Some p, d) \<Rightarrow> Inl p
                | (None, d) \<Rightarrow> Inr (GetRanges d))))"

definition compareChunks :: "bytes list \<Rightarrow> bytes list \<Rightarrow> panic + KeyRange list" where
  "compareChunks chunksA chunksB =
     (case NewMerkleTreeFromChunks chunksA of
        Inl p \<Rightarrow> Inl p
      | Inr a \<Rightarrow>
          (case NewMerkleTreeFromChunks chunksB of
             Inl p \<Rightarrow> Inl p
           | Inr b \<Rightarrow>
               (case Compare (NewDiff (Some a) (Some b)) of
                  (Some p, d) \<Rightarrow> Inl p
                | (None, d) \<Rightarrow> Inr (GetRanges d))))"

text \<open>The leaf the builders make of one row, and of the chunk at index \<open>i\<close>.\<close>

definition rowLeaf :: "Row \<Rightarrow> MerkleNode" where
  "rowLeaf row =
     MerkleNode (Hash (fst (SerializeRow NewSerializer (Values row)))) (Key row) (Key row)
       None None 0"

definition chunkLeaf :: "nat \<Rightarrow> bytes \<Rightarrow> MerkleNode" where
  "chunkLeaf i chunk = MerkleNode (Hash chunk) (chunkKey i) (chunkKey i) None None 0"

section \<open>The node invariants of the specification\<close>

text \<open>All the nodes of a tree: the root and the nodes below it.\<close>

function subnodes :: "MerkleNode option \<Rightarrow> MerkleNode list" where
  "subnodes None = []"
| "subnodes (Some n) = n # subnodes (GetLeft n) @ subnodes (GetRight n)"
  by pat_completeness auto
termination
  by (relation "measure (size_option size)") (auto simp: size_GetLeft size_GetRight less_Suc_eq)

text \<open>
  The invariants in the specification's words. A leaf (no children) has level 0 and equal
  start and end keys. An internal node (two children) has the 32-byte hash of its
  children's hashes joined, its left child's start key, its right child's end key, and a
  level one above the higher child. A node with one child is neither.
\<close>

definition nodeInvariant :: "MerkleNode \<Rightarrow> bool" where
  "nodeInvariant n \<longleftrightarrow>
     (case (GetLeft n, GetRight n) of
        (None, None) \<Rightarrow> GetLevel n = 0 \<and> GetStartKey n = GetEndKey n
      | (Some l, Some r) \<Rightarrow>
          GetHash n = Hash (GetHash l @ GetHash r) \<and> length (GetHash n) = 32
          \<and> GetStartKey n = GetStartKey l \<and> GetEndKey n = GetEndKey r
          \<and> GetLevel n = 1 + max (GetLevel l) (GetLevel r)
      | _ \<Rightarrow> False)"

definition treeInvariant :: "MerkleNode \<Rightarrow> bool" where
  "treeInvariant t \<longleftrightarrow> list_all nodeInvariant (subnodes (Some t))"

section \<open>Properties of the serializer\<close>

lemma Serializer_reset: "(s::Serializer)\<lparr>buf := []\<rparr> = \<lparr>buf = []\<rparr>"
  by (cases s) simp

text \<open>
  Claim C6. For every list of values, \<^verbatim>\<open>SerializeRow\<close> returns the same bytes whatever
  state the serializer is in when it is called, and in particular when it is called a
  second time on the serializer the first call left behind: the output depends on the
  values only.
\<close>

theorem SerializeRow_deterministic:
  "fst (SerializeRow s1 vals) = fst (SerializeRow s2 vals)
   \<and> fst (SerializeRow (snd (SerializeRow s1 vals)) vals) = fst (SerializeRow s1 vals)"
  by (simp add: SerializeRow_def Let_def Serializer_reset)

lemma PutUint64_minus_one: "PutUint64 (- 1) = [255, 255, 255, 255, 255, 255, 255, 255]"
  by code_simp

lemma scast_minus_one: "(scast (- 1 :: u32) :: u64) = - 1"
  by simp

text \<open>
  The integer types the type switch names. An \<^verbatim>\<open>int\<close>, \<^verbatim>\<open>int64\<close> or \<^verbatim>\<open>int32\<close> of value 1
  is serialized as tag 2 and eight bytes, big-endian; the text "1" as tag 1, a four-byte
  big-endian length and its one byte 49; the two outputs differ. In general an integer of
  these three types is tag 2 followed by \<^verbatim>\<open>PutUint64\<close> of its 64-bit value (sign-extended
  from an \<^verbatim>\<open>int32\<close>), and a text is tag 1 followed by \<^verbatim>\<open>PutUint32\<close> of its length and
  its bytes.
\<close>

theorem serialize_int_vs_text:
  "fst (SerializeRow s [VInt 1]) = [2, 0, 0, 0, 0, 0, 0, 0, 1]
   \<and> fst (SerializeRow s [VString [49]]) = [1, 0, 0, 0, 1, 49]
   \<and> fst (SerializeRow s [VInt 1]) \<noteq> fst (SerializeRow s' [VString [49]])
   \<and> fst (SerializeRow s [VInt (- 1)]) = [2, 255, 255, 255, 255, 255, 255, 255, 255]
   \<and> fst (SerializeRow s [VInt32 (- 1)]) = [2, 255, 255, 255, 255, 255, 255, 255, 255]
   \<and> fst (SerializeRow s [VInt i]) = 2 # PutUint64 i
   \<and> fst (SerializeRow s [VInt64 i]) = 2 # PutUint64 i
   \<and> fst (SerializeRow s [VInt32 j]) = 2 # PutUint64 (scast j)
   \<and> fst (SerializeRow s [VString t]) = 1 # PutUint32 (word_of_nat (length t)) @ t"
proof -
  have neg: "fst (SerializeRow s [VInt (- 1)]) = [2, 255, 255, 255, 255, 255, 255, 255, 255]"
            "fst (SerializeRow s [VInt32 (- 1)]) = [2, 255, 255, 255, 255, 255, 255, 255, 255]"
    by (simp_all add: SerializeRow_def Let_def writeType_def writeInt64_def
          PutUint64_minus_one scast_minus_one)
  show ?thesis
    unfolding neg
    by (simp add: SerializeRow_def Let_def writeType_def writeBytes_def writeInt64_def
          PutUint64_def PutUint32_def)
qed

text \<open>
  Claim C7, at a failing input. An \<^verbatim>\<open>int16\<close> of value 1 (what the Postgres reader hands
  over for a \<^verbatim>\<open>smallint\<close> column, which it declares an integer column) has no case in the
  type switch: it is written by the fallback as tag 1, length 1 and the byte 49, the very
  bytes of the text "1". The same holds for \<^verbatim>\<open>int8\<close> and for every unsigned integer type,
  while the \<^verbatim>\<open>int32\<close> beside them is written as tag 2 and eight bytes.
\<close>

theorem serialize_small_int_as_text:
  "fst (SerializeRow s [VInt16 1]) = [1, 0, 0, 0, 1, 49]
   \<and> fst (SerializeRow s [VInt16 1]) = fst (SerializeRow s' [VString [49]])
   \<and> fst (SerializeRow s [VInt8 1]) = fst (SerializeRow s' [VString [49]])
   \<and> fst (SerializeRow s [VUint 1]) = fst (SerializeRow s' [VString [49]])
   \<and> fst (SerializeRow s [VUint8 1]) = fst (SerializeRow s' [VString [49]])
   \<and> fst (SerializeRow s [VUint16 1]) = fst (SerializeRow s' [VString [49]])
   \<and> fst (SerializeRow s [VUint32 1]) = fst (SerializeRow s' [VString [49]])
   \<and> fst (SerializeRow s [VUint64 1]) = fst (SerializeRow s' [VString [49]])
   \<and> fst (SerializeRow s [VInt32 1]) = [2, 0, 0, 0, 0, 0, 0, 0, 1]"
  by (simp add: SerializeRow_def Let_def writeType_def writeBytes_def writeInt64_def
        PutUint64_def PutUint32_def sprintInt_def)

section \<open>The builders return a tree\<close>

lemma SerializeRow_any: "SerializeRow s vals = SerializeRow NewSerializer vals"
  by (simp add: SerializeRow_def Let_def Serializer_reset)

lemma SerializeRowValues_fst:
  "fst (SerializeRowValues nb vals) = fst (SerializeRow NewSerializer vals)"
  by (simp add: SerializeRowValues_def split_beta SerializeRow_any [of "Serializer nb"])

lemma rowLeaves_fst: "fst (rowLeaves nb rows) = map rowLeaf rows"
proof (induction rows arbitrary: nb)
  case Nil
  show ?case by simp
next
  case (Cons row rows)
  obtain out nb1 where s: "SerializeRowValues nb (Values row) = (out, nb1)"
    by (cases "SerializeRowValues nb (Values row)")
  then have out: "out = fst (SerializeRow NewSerializer (Values row))"
    using SerializeRowValues_fst [of nb "Values row"] by simp
  obtain rest nb2 where r: "rowLeaves nb1 rows = (rest, nb2)"
    by (cases "rowLeaves nb1 rows")
  then have "rest = map rowLeaf rows"
    using Cons.IH [of nb1] by simp
  then show ?case
    by (simp add: s r out rowLeaf_def NewNode_def Let_def)
qed

lemma chunkLeaves_eq: "chunkLeaves i chunks = map (\<lambda>(j, c). chunkLeaf j c) (zip [i..<i + length chunks] chunks)"
proof (induction chunks arbitrary: i)
  case Nil
  show ?case by simp
next
  case (Cons c cs)
  have "[i..<i + length (c # cs)] = i # [Suc i..<Suc i + length cs]"
    by (simp add: upt_rec)
  then show ?case
    using Cons.IH [of "Suc i"] by (simp add: chunkLeaf_def NewNode_def Let_def)
qed

lemma buildTreeLevels_total:
  "nodes \<noteq> [] \<Longrightarrow> \<exists>n. buildTreeLevels nodes = Inr n"
proof (induction nodes rule: buildTreeLevels.induct)
  case (1 nodes)
  show ?case
  proof (cases "length nodes > 1")
    case True
    then have "nextLevel nodes \<noteq> []"
      using length_nextLevel [of nodes] by (cases "nextLevel nodes") auto
    then show ?thesis
      using "1.IH" True by (subst buildTreeLevels.simps) simp
  next
    case False
    with "1.prems" show ?thesis
      by (subst buildTreeLevels.simps) (simp split: list.splits)
  qed
qed

lemma NewMerkleTreeFromRows_total:
  "\<exists>t. NewMerkleTreeFromRows rows = Inr t \<and> (GetRoot t = None \<longleftrightarrow> rows = [])"
proof (cases rows)
  case Nil
  then show ?thesis
    by (simp add: NewMerkleTreeFromRows_def buildTreeFromRows_def GetRoot_def)
next
  case (Cons row rest)
  obtain nodes nb where l: "rowLeaves NewNodeBuilder rows = (nodes, nb)"
    by (cases "rowLeaves NewNodeBuilder rows")
  then have "nodes = map rowLeaf rows"
    using rowLeaves_fst [of NewNodeBuilder rows] by simp
  with Cons have "nodes \<noteq> []" by simp
  then obtain n where "buildTreeLevels nodes = Inr n"
    using buildTreeLevels_total by blast
  with Cons l show ?thesis
    by (simp add: NewMerkleTreeFromRows_def buildTreeFromRows_def GetRoot_def)
qed

lemma NewMerkleTreeFromRows_one:
  "NewMerkleTreeFromRows [a] =
     Inr \<lparr>root = Some (rowLeaf a), nodeBuilder = snd (rowLeaves NewNodeBuilder [a])\<rparr>"
proof -
  obtain nodes nb where l: "rowLeaves NewNodeBuilder [a] = (nodes, nb)"
    by (cases "rowLeaves NewNodeBuilder [a]")
  then have n: "nodes = [rowLeaf a]"
    using rowLeaves_fst [of NewNodeBuilder "[a]"] by simp
  show ?thesis
    unfolding NewMerkleTreeFromRows_def buildTreeFromRows_def l n
    by simp
qed

lemma NewMerkleTreeFromRows_three:
  "NewMerkleTreeFromRows [a, b, c] =
     Inr \<lparr>root = Some (MerkleNode
              (Hash (Hash (GetHash (rowLeaf a) @ GetHash (rowLeaf b)) @ GetHash (rowLeaf c)))
              (Key a) (Key c)
              (Some (MerkleNode (Hash (GetHash (rowLeaf a) @ GetHash (rowLeaf b))) (Key a) (Key b)
                       (Some (rowLeaf a)) (Some (rowLeaf b)) 1))
              (Some (rowLeaf c)) 2),
          nodeBuilder = snd (rowLeaves NewNodeBuilder [a, b, c])\<rparr>"
proof -
  obtain nodes nb where l: "rowLeaves NewNodeBuilder [a, b, c] = (nodes, nb)"
    by (cases "rowLeaves NewNodeBuilder [a, b, c]")
  then have n: "nodes = [rowLeaf a, rowLeaf b, rowLeaf c]"
    using rowLeaves_fst [of NewNodeBuilder "[a, b, c]"] by simp
  show ?thesis
    unfolding NewMerkleTreeFromRows_def buildTreeFromRows_def l n
    by (simp add: NewNode_def Let_def rowLeaf_def)
qed

text \<open>
  Claim C3. Three rows \<open>a\<close>, \<open>b\<close>, \<open>c\<close> give three leaves. The first pass pairs the leaves
  of \<open>a\<close> and \<open>b\<close> under a parent of level 1 and appends the leaf of \<open>c\<close> as it is: same
  hash, same keys, level 0, no children. The second pass pairs the two, and the root has
  level 2, the key of \<open>a\<close> as start key and the key of \<open>c\<close> as end key.
\<close>

theorem three_leaves_odd_carry:
  "\<exists>ab rt nb.
     fst (rowLeaves NewNodeBuilder [a, b, c]) = [rowLeaf a, rowLeaf b, rowLeaf c]
     \<and> nextLevel [rowLeaf a, rowLeaf b, rowLeaf c] = [ab, rowLeaf c]
     \<and> ab = MerkleNode (Hash (GetHash (rowLeaf a) @ GetHash (rowLeaf b))) (Key a) (Key b)
               (Some (rowLeaf a)) (Some (rowLeaf b)) 1
     \<and> nextLevel [ab, rowLeaf c] = [rt]
     \<and> rt = MerkleNode (Hash (GetHash ab @ GetHash (rowLeaf c))) (Key a) (Key c)
               (Some ab) (Some (rowLeaf c)) 2
     \<and> NewMerkleTreeFromRows [a, b, c] = Inr \<lparr>root = Some rt, nodeBuilder = nb\<rparr>
     \<and> GetLevel rt = 2 \<and> GetStartKey rt = Key a \<and> GetEndKey rt = Key c
     \<and> GetRight rt = Some (rowLeaf c)
     \<and> GetLevel (rowLeaf c) = 0 \<and> IsLeaf (rowLeaf c)
     \<and> GetStartKey (rowLeaf c) = Key c \<and> GetEndKey (rowLeaf c) = Key c"
proof -
  have leaves: "fst (rowLeaves NewNodeBuilder [a, b, c]) = [rowLeaf a, rowLeaf b, rowLeaf c]"
    by (simp only: rowLeaves_fst list.map)
  show ?thesis
    unfolding leaves NewMerkleTreeFromRows_three
    by (simp add: NewNode_def Let_def rowLeaf_def IsLeaf_def)
qed

section \<open>Every node the builders make satisfies the invariants\<close>

lemma length_PutUint32: "length (PutUint32 w) = 4"
  by (simp add: PutUint32_def)

lemma length_sha_out: "length (sha_out st) = 32"
  by (cases st rule: sha_out.cases) (simp add: length_PutUint32)

lemma length_Hash: "length (Hash m) = 32"
  by (simp add: Hash_def SHA256_def length_sha_out)

lemma treeInvariant_leaf: "treeInvariant (MerkleNode h k k None None 0)"
  by (simp add: treeInvariant_def nodeInvariant_def)

lemma treeInvariant_parent:
  "treeInvariant l \<Longrightarrow> treeInvariant r \<Longrightarrow>
   treeInvariant (MerkleNode (Hash (GetHash l @ GetHash r)) (GetStartKey l) (GetEndKey r)
                    (Some l) (Some r) (max (GetLevel l) (GetLevel r) + 1))"
  by (simp add: treeInvariant_def nodeInvariant_def length_Hash)

lemma nextLevel_invariant:
  "list_all treeInvariant nodes \<Longrightarrow> list_all treeInvariant (nextLevel nodes)"
proof (induction nodes rule: nextLevel.induct)
  case (1 l r rest)
  from "1.prems" have lr: "treeInvariant l" "treeInvariant r" and "list_all treeInvariant rest"
    by simp_all
  then have IH: "list_all treeInvariant (nextLevel rest)"
    using "1.IH" by simp
  have "(if GetLevel l < GetLevel r then GetLevel r else GetLevel l)
          = max (GetLevel l) (GetLevel r)"
    by (simp add: max_def)
  then show ?case
    using treeInvariant_parent [OF lr] IH by (simp add: NewNode_def Let_def)
qed simp_all

lemma buildTreeLevels_invariant:
  "list_all treeInvariant nodes \<Longrightarrow> buildTreeLevels nodes = Inr n \<Longrightarrow> treeInvariant n"
proof (induction nodes rule: buildTreeLevels.induct)
  case (1 nodes)
  show ?case
  proof (cases "length nodes > 1")
    case True
    with "1.prems"(2) have "buildTreeLevels (nextLevel nodes) = Inr n"
      by (subst (asm) buildTreeLevels.simps) simp
    then show ?thesis
      using "1.IH" True "1.prems"(1) nextLevel_invariant by blast
  next
    case False
    then have "buildTreeLevels nodes = (case nodes of [] \<Rightarrow> Inl IndexOutOfRange | x # _ \<Rightarrow> Inr x)"
      by (subst buildTreeLevels.simps) simp
    with "1.prems" show ?thesis
      by (cases nodes) simp_all
  qed
qed

lemma rowLeaves_invariant: "list_all treeInvariant (map rowLeaf rows)"
  by (induction rows) (simp_all add: rowLeaf_def treeInvariant_leaf)

lemma chunkLeaves_invariant: "list_all treeInvariant (chunkLeaves i chunks)"
  by (induction chunks arbitrary: i) (simp_all add: NewNode_def Let_def treeInvariant_leaf)

lemma NewMerkleTreeFromRows_invariant:
  assumes "NewMerkleTreeFromRows rows = Inr t"
  shows "list_all nodeInvariant (subnodes (GetRoot t))"
proof (cases rows)
  case Nil
  with assms show ?thesis
    by (auto simp: NewMerkleTreeFromRows_def buildTreeFromRows_def GetRoot_def)
next
  case (Cons row rest)
  obtain nodes nb where l: "rowLeaves NewNodeBuilder rows = (nodes, nb)"
    by (cases "rowLeaves NewNodeBuilder rows")
  then have n: "nodes = map rowLeaf rows"
    using rowLeaves_fst [of NewNodeBuilder rows] by simp
  from assms Cons l obtain rt where rt: "buildTreeLevels nodes = Inr rt" "GetRoot t = Some rt"
    by (cases "buildTreeLevels nodes")
       (auto simp: NewMerkleTreeFromRows_def buildTreeFromRows_def GetRoot_def)
  then have "treeInvariant rt"
    using buildTreeLevels_invariant [of nodes rt] rowLeaves_invariant [of rows] n by simp
  with rt show ?thesis by (simp add: treeInvariant_def)
qed

lemma NewMerkleTreeFromChunks_invariant:
  assumes "NewMerkleTreeFromChunks chunks = Inr t"
  shows "list_all nodeInvariant (subnodes (GetRoot t))"
proof (cases chunks)
  case Nil
  with assms show ?thesis
    by (auto simp: NewMerkleTreeFromChunks_def buildTreeFromChunks_def GetRoot_def)
next
  case (Cons c rest)
  from assms Cons obtain rt where rt: "buildTreeLevels (chunkLeaves 0 chunks) = Inr rt" "GetRoot t = Some rt"
    by (cases "buildTreeLevels (chunkLeaves 0 chunks)")
       (auto simp: NewMerkleTreeFromChunks_def buildTreeFromChunks_def GetRoot_def simp del: chunkLeaves.simps)
  then have "treeInvariant rt"
    using buildTreeLevels_invariant [of "chunkLeaves 0 chunks" rt] chunkLeaves_invariant [of 0 chunks] by simp
  with rt show ?thesis by (simp add: treeInvariant_def)
qed

lemma readLeaves_invariant:
  assumes "readLeaves r s nb nodes = Some res" and "list_all treeInvariant nodes"
  shows "list_all treeInvariant (snd (snd res))"
proof -
  have "list_all treeInvariant nodes \<longrightarrow> list_all treeInvariant (snd (snd res))"
  proof (rule readLeaves.raw_induct
      [where P = "\<lambda>r s nb nodes res.
                    list_all treeInvariant nodes \<longrightarrow> list_all treeInvariant (snd (snd res))"
             and r = r and s = s and nb = nb and nodes = nodes and y = res],
      goal_cases)
    case (1 loop r s nb nodes res)
    obtain ok s1 where n: "Next r s = (ok, s1)" by (cases "Next r s")
    show ?case
    proof (cases ok)
      case False
      with 1(2) n show ?thesis by auto
    next
      case True
      obtain row s2 where rw: "Row r s1 = (row, s2)" by (cases "Row r s1")
      obtain out nb1 where sv: "SerializeRowValues nb (Values row) = (out, nb1)"
        by (cases "SerializeRowValues nb (Values row)")
      let ?node = "SetLevel (NewNode out (Key row) (Key row)) 0"
      from 1(2) n True rw sv have call: "loop r s2 nb1 (nodes @ [?node]) = Some res"
        by (simp add: Let_def)
      have "treeInvariant ?node"
        by (simp add: NewNode_def Let_def treeInvariant_leaf)
      with 1(1) [OF call] show ?thesis by simp
    qed
  next
    case 2
    show ?case by (rule assms(1))
  qed
  with assms(2) show ?thesis by simp
qed

lemma BuildTreeFromReader_cases:
  assumes "BuildTreeFromReader r s = Some (res, s')"
  shows "(\<exists>e. res = Inr (None, Some e))
         \<or> (\<exists>t. res = Inr (Some t, None) \<and> list_all nodeInvariant (subnodes (GetRoot t)))"
proof -
  from assms obtain s1 nb nodes where rl: "readLeaves r s NewNodeBuilder [] = Some (s1, nb, nodes)"
    by (cases "readLeaves r s NewNodeBuilder []") (auto simp: BuildTreeFromReader_def)
  obtain eo s2 where er: "Err r s1 = (eo, s2)" by (cases "Err r s1")
  have inv: "list_all treeInvariant nodes"
    using readLeaves_invariant [OF rl] by simp
  show ?thesis
  proof (cases eo)
    case (Some e)
    with assms rl er show ?thesis by (auto simp: BuildTreeFromReader_def)
  next
    case None
    show ?thesis
    proof (cases "nodes = []")
      case True
      with assms rl er None show ?thesis
        by (auto simp: BuildTreeFromReader_def GetRoot_def)
    next
      case False
      then obtain n where n: "buildTreeLevels nodes = Inr n"
        using buildTreeLevels_total by blast
      then have "treeInvariant n"
        using buildTreeLevels_invariant inv by blast
      with assms rl er None False n show ?thesis
        by (auto simp: BuildTreeFromReader_def GetRoot_def treeInvariant_def)
    qed
  qed
qed



lemma NewMerkleTreeFromRows_two:
  "NewMerkleTreeFromRows [a, b] =
     Inr \<lparr>root = Some (MerkleNode (Hash (GetHash (rowLeaf a) @ GetHash (rowLeaf b))) (Key a) (Key b)
                        (Some (rowLeaf a)) (Some (rowLeaf b)) 1),
          nodeBuilder = snd (rowLeaves NewNodeBuilder [a, b])\<rparr>"
proof -
  obtain nodes nb where l: "rowLeaves NewNodeBuilder [a, b] = (nodes, nb)"
    by (cases "rowLeaves NewNodeBuilder [a, b]")
  then have n: "nodes = [rowLeaf a, rowLeaf b]"
    using rowLeaves_fst [of NewNodeBuilder "[a, b]"] by simp
  show ?thesis
    unfolding NewMerkleTreeFromRows_def buildTreeFromRows_def l n
    by (simp add: NewNode_def Let_def rowLeaf_def)
qed

text \<open>
  Claim C8. In a tree returned by \<^verbatim>\<open>NewMerkleTreeFromRows\<close>, \<^verbatim>\<open>NewMerkleTreeFromChunks\<close> or
  \<^verbatim>\<open>BuildTreeFromReader\<close>, every node is either a leaf with level 0 and equal start and
  end keys, or has two children, the 32-byte SHA-256 hash of the left hash followed by the
  right hash, the left child's start key, the right child's end key and level
  \<open>1 + max\<close> of the children's levels.
\<close>

theorem builder_node_invariants:
  assumes "NewMerkleTreeFromRows rows = Inr t
           \<or> NewMerkleTreeFromChunks chunks = Inr t
           \<or> BuildTreeFromReader r s = Some (Inr (Some t, e), s')"
      and "n \<in> set (subnodes (GetRoot t))"
    shows "nodeInvariant n"
proof -
  have "list_all nodeInvariant (subnodes (GetRoot t))"
    using assms(1) NewMerkleTreeFromRows_invariant NewMerkleTreeFromChunks_invariant
      BuildTreeFromReader_cases [of r s "Inr (Some t, e)" s']
    by auto
  with assms(2) show ?thesis
    by (simp add: list_all_iff)
qed

theorem builder_node_invariants_witness:
  "(let a = \<lparr>Key = [107, 49], Values = [VInt 1]\<rparr>;
        b = \<lparr>Key = [107, 50], Values = [VInt 2]\<rparr>;
        rt = MerkleNode (Hash (GetHash (rowLeaf a) @ GetHash (rowLeaf b))) (Key a) (Key b)
               (Some (rowLeaf a)) (Some (rowLeaf b)) 1;
        t = \<lparr>root = Some rt, nodeBuilder = snd (rowLeaves NewNodeBuilder [a, b])\<rparr>
    in NewMerkleTreeFromRows [a, b] = Inr t
       \<and> rt \<in> set (subnodes (GetRoot t)) \<and> nodeInvariant rt
       \<and> rowLeaf b \<in> set (subnodes (GetRoot t)) \<and> nodeInvariant (rowLeaf b))"
proof -
  let ?a = "\<lparr>Key = [107, 49], Values = [VInt 1]\<rparr>"
  let ?b = "\<lparr>Key = [107, 50], Values = [VInt 2]\<rparr>"
  let ?rt = "MerkleNode (Hash (GetHash (rowLeaf ?a) @ GetHash (rowLeaf ?b))) (Key ?a) (Key ?b)
               (Some (rowLeaf ?a)) (Some (rowLeaf ?b)) 1"
  let ?t = "\<lparr>root = Some ?rt, nodeBuilder = snd (rowLeaves NewNodeBuilder [?a, ?b])\<rparr>"
  have b: "NewMerkleTreeFromRows [?a, ?b] = Inr ?t"
    by (rule NewMerkleTreeFromRows_two)
  have m1: "?rt \<in> set (subnodes (GetRoot ?t))" and m2: "rowLeaf ?b \<in> set (subnodes (GetRoot ?t))"
    by (simp_all add: GetRoot_def rowLeaf_def)
  show ?thesis
    using b m1 m2 builder_node_invariants [OF disjI1, OF b m1]
      builder_node_invariants [OF disjI1, OF b m2]
    by (simp add: Let_def del: rowLeaves.simps)
qed

section \<open>Building from a reader: errors and the empty case\<close>







section \<open>Properties of the diff engine\<close>

lemma Compare_same:
  "Compare (NewDiff (Some t) (Some t)) = (None, \<lparr>treeA = Some t, treeB = Some t, ranges = []\<rparr>)"
  by (cases "GetRoot t") (simp_all add: Compare_def NewDiff_def Let_def)

text \<open>
  Claim C4. For every non-empty list of rows, building a tree from it twice and comparing
  the two trees ends without a panic and yields no range.
\<close>

theorem self_diff_no_ranges:
  "rows \<noteq> [] \<Longrightarrow> compareRows rows rows = Inr []"
proof -
  obtain t where "NewMerkleTreeFromRows rows = Inr t"
    using NewMerkleTreeFromRows_total by blast
  then show ?thesis
    by (simp add: compareRows_def Compare_same GetRanges_def)
qed

theorem self_diff_no_ranges_witness:
  "[\<lparr>Key = [107, 49], Values = [VInt 1, VString [97]]\<rparr>,
    \<lparr>Key = [107, 50], Values = [VNil, VBool True]\<rparr>,
    \<lparr>Key = [107, 51], Values = [VInt 3]\<rparr>] \<noteq> []
   \<and> compareRows
        [\<lparr>Key = [107, 49], Values = [VInt 1, VString [97]]\<rparr>,
         \<lparr>Key = [107, 50], Values = [VNil, VBool True]\<rparr>,
         \<lparr>Key = [107, 51], Values = [VInt 3]\<rparr>]
        [\<lparr>Key = [107, 49], Values = [VInt 1, VString [97]]\<rparr>,
         \<lparr>Key = [107, 50], Values = [VNil, VBool True]\<rparr>,
         \<lparr>Key = [107, 51], Values = [VInt 3]\<rparr>] = Inr []"
  using self_diff_no_ranges
    [of "[\<lparr>Key = [107, 49], Values = [VInt 1, VString [97]]\<rparr>,
          \<lparr>Key = [107, 50], Values = [VNil, VBool True]\<rparr>,
          \<lparr>Key = [107, 51], Values = [VInt 3]\<rparr>]"]
  by simp

text \<open>
  Claim C2. When the chunk sizes of the two trees differ (the length of the root's start
  key, 0 for a tree with no root), \<^verbatim>\<open>Compare\<close> panics with the chunk-size-mismatch
  error, and the \<^verbatim>\<open>Diff\<close> made by \<^verbatim>\<open>NewDiff\<close> is left with no range.
\<close>

theorem compare_chunk_size_mismatch:
  "GetChunkSize a \<noteq> GetChunkSize b \<Longrightarrow>
   Compare (NewDiff (Some a) (Some b)) =
     (Some (ChunkSizeMismatch (GetChunkSize a) (GetChunkSize b)),
      \<lparr>treeA = Some a, treeB = Some b, ranges = []\<rparr>)
   \<and> GetRanges (snd (Compare (NewDiff (Some a) (Some b)))) = []"
  by (simp add: Compare_def NewDiff_def GetRanges_def)

theorem compare_chunk_size_mismatch_witness:
  "(let a = \<lparr>root = Some (rowLeaf \<lparr>Key = [107], Values = [VInt 1]\<rparr>), nodeBuilder = NewNodeBuilder\<rparr>;
        b = \<lparr>root = Some (rowLeaf \<lparr>Key = [107, 107], Values = [VInt 1]\<rparr>), nodeBuilder = NewNodeBuilder\<rparr>
    in GetChunkSize a \<noteq> GetChunkSize b
       \<and> Compare (NewDiff (Some a) (Some b)) =
           (Some (ChunkSizeMismatch 1 2), \<lparr>treeA = Some a, treeB = Some b, ranges = []\<rparr>)
       \<and> GetRanges (snd (Compare (NewDiff (Some a) (Some b)))) = [])"
  using compare_chunk_size_mismatch
    [of "\<lparr>root = Some (rowLeaf \<lparr>Key = [107], Values = [VInt 1]\<rparr>), nodeBuilder = NewNodeBuilder\<rparr>"
        "\<lparr>root = Some (rowLeaf \<lparr>Key = [107, 107], Values = [VInt 1]\<rparr>), nodeBuilder = NewNodeBuilder\<rparr>"]
  by (simp add: Let_def GetChunkSize_def NodeChunkSize_def rowLeaf_def GetRanges_def)

text \<open>
  Claim C10. A tree built from no rows or no chunks has no root, and its chunk size is
  0 without a dereference. Comparing two trees without a root ends without a panic and
  yields no range.
\<close>

theorem compare_empty_trees:
  "NewMerkleTreeFromRows [] = Inr \<lparr>root = None, nodeBuilder = NewNodeBuilder\<rparr>
   \<and> NewMerkleTreeFromChunks [] = Inr \<lparr>root = None, nodeBuilder = NewNodeBuilder\<rparr>
   \<and> GetChunkSize \<lparr>root = None, nodeBuilder = nb1\<rparr> = 0
   \<and> Compare (NewDiff (Some \<lparr>root = None, nodeBuilder = nb1\<rparr>)
                       (Some \<lparr>root = None, nodeBuilder = nb2\<rparr>)) =
       (None, \<lparr>treeA = Some \<lparr>root = None, nodeBuilder = nb1\<rparr>,
               treeB = Some \<lparr>root = None, nodeBuilder = nb2\<rparr>, ranges = []\<rparr>)
   \<and> compareRows [] [] = Inr []
   \<and> compareChunks [] [] = Inr []"
  by (simp add: NewMerkleTreeFromRows_def buildTreeFromRows_def NewMerkleTreeFromChunks_def
        buildTreeFromChunks_def GetChunkSize_def Compare_def NewDiff_def GetRoot_def
        compareRows_def compareChunks_def GetRanges_def)

text \<open>
  Claim C1, at a failing input. The empty tree has chunk size 0 and a tree of one row
  with the two-byte key "k1" has chunk size 2, so \<^verbatim>\<open>Compare\<close> panics with the
  chunk-size mismatch and no range is reported; the same happens with chunks, whose keys
  have seven bytes or more. The branch of \<^verbatim>\<open>compareTreesRecursive\<close> for a nil left node,
  which would report the one added range, is not reached.
\<close>

theorem empty_vs_nonempty_panics:
  "compareRows [] [\<lparr>Key = [107, 49], Values = [VInt 1]\<rparr>] = Inl (ChunkSizeMismatch 0 2)
   \<and> compareChunks [] [[97]] = Inl (ChunkSizeMismatch 0 7)
   \<and> compareTreesRecursive None (Some (rowLeaf \<lparr>Key = [107, 49], Values = [VInt 1]\<rparr>)) [] =
       [\<lparr>Start = [107, 49], End = [107, 49], Type = DiffTypeAdded\<rparr>]"
proof -
  have r: "NewMerkleTreeFromRows [\<lparr>Key = [107, 49], Values = [VInt 1]\<rparr>] =
      Inr \<lparr>root = Some (rowLeaf \<lparr>Key = [107, 49], Values = [VInt 1]\<rparr>),
           nodeBuilder = snd (rowLeaves NewNodeBuilder [\<lparr>Key = [107, 49], Values = [VInt 1]\<rparr>])\<rparr>"
    by (rule NewMerkleTreeFromRows_one)
  have c: "NewMerkleTreeFromChunks [[97]] =
      Inr \<lparr>root = Some (chunkLeaf 0 [97]), nodeBuilder = NewNodeBuilder\<rparr>"
    by (simp add: NewMerkleTreeFromChunks_def buildTreeFromChunks_def chunkLeaf_def
          NewNode_def Let_def)
  have e: "NewMerkleTreeFromRows [] = Inr \<lparr>root = None, nodeBuilder = NewNodeBuilder\<rparr>"
    by (simp add: NewMerkleTreeFromRows_def buildTreeFromRows_def)
  have e': "NewMerkleTreeFromChunks [] = Inr \<lparr>root = None, nodeBuilder = NewNodeBuilder\<rparr>"
    by (simp add: NewMerkleTreeFromChunks_def buildTreeFromChunks_def)
  show ?thesis
    unfolding compareRows_def compareChunks_def r c e e'
    by (simp add: Compare_def NewDiff_def GetChunkSize_def NodeChunkSize_def rowLeaf_def
          chunkLeaf_def chunkKey_def)
qed

section \<open>Leaf root against internal root\<close>







end
